theory Spec2Isabelle
  imports Complex_Main
begin

section \<open>Numbers and plain objects\<close>

text \<open>
  A JavaScript number is modelled by a \<^typ>\<open>real\<close>: the finite values under exact
  arithmetic, without rounding. \<open>NaN\<close> and the infinities are not values of the model;
  in the code they arise from a division by zero, so a statement below about a handler
  that divides carries the hypothesis that the divisor is not zero, and HOL's convention
  \<open>x / 0 = 0\<close> is never relied on.
\<close>

record point =
  px :: real
  py :: real

record dims =
  width :: real
  height :: real

record transform =
  scale :: real
  pos :: point

record percent =
  xPercent :: real
  yPercent :: real

record screen_pos =
  left :: real
  top_px :: real

record mouse_event =
  clientX :: real
  clientY :: real

record wheel_event = mouse_event +
  deltaY :: real

section \<open>PinLayer: percentage coordinates and screen coordinates\<close>

definition clampPercent :: "real \<Rightarrow> real" where
  "clampPercent v = max 0 (min 100 v)"

definition hasImageSize :: "dims \<Rightarrow> bool" where
  "hasImageSize imageSize \<longleftrightarrow> width imageSize > 0 \<and> height imageSize > 0"

definition toScreen :: "transform \<Rightarrow> dims \<Rightarrow> real \<Rightarrow> real \<Rightarrow> screen_pos" where
  "toScreen tr imageSize xPct yPct =
     \<lparr> left = px (pos tr) + (xPct / 100) * width imageSize * scale tr,
       top_px = py (pos tr) + (yPct / 100) * height imageSize * scale tr \<rparr>"

definition toPercent :: "transform \<Rightarrow> dims \<Rightarrow> real \<Rightarrow> real \<Rightarrow> percent" where
  "toPercent tr imageSize cx cy =
     (let x = ((cx - px (pos tr)) / (width imageSize * scale tr)) * 100;
          y = ((cy - py (pos tr)) / (height imageSize * scale tr)) * 100
      in \<lparr> xPercent = clampPercent x, yPercent = clampPercent y \<rparr>)"

section \<open>ZoomableImage: the viewport state\<close>

text \<open>
  The component's \<open>useState\<close> cells (\<open>scale\<close>, \<open>pos\<close>, \<open>minScale\<close>) and refs are the
  fields of one state record; a handler takes the state and returns the new one. What the
  handlers read from the DOM is the environment: the container element (or the window,
  when the ref is empty) and the image element with its natural size and bounding box.
  Each handler reports to \<open>onTransformChange\<close> exactly the \<open>scale\<close> and \<open>pos\<close> it stores.
  \<open>frameRequested\<close> says whether a call of \<open>smoothZoomStep\<close> is scheduled for the
  next animation frame.
\<close>

record rect =
  rect_left :: real
  rect_top :: real
  rect_width :: real
  rect_height :: real

record image =
  naturalWidth :: real
  naturalHeight :: real
  boundingRect :: rect

record env =
  containerRef :: "dims option"
  window :: dims
  imgRef :: "image option"

record wheel_info =
  wheel_x :: real
  wheel_y :: real
  relX :: real
  relY :: real

record bounds =
  minX :: real
  minY :: real

record zoomable = transform +
  minScale :: real
  isDragging :: bool
  dragStart :: point
  targetScale :: real
  frameRequested :: bool
  lastWheel :: wheel_info

definition initial_zoomable :: zoomable where
  "initial_zoomable =
     \<lparr> scale = 1, pos = \<lparr> px = 0, py = 0 \<rparr>, minScale = 1, isDragging = False,
       dragStart = \<lparr> px = 0, py = 0 \<rparr>, targetScale = 1, frameRequested = False,
       lastWheel = \<lparr> wheel_x = 0, wheel_y = 0, relX = 0, relY = 0 \<rparr> \<rparr>"

definition clamp :: "real \<Rightarrow> real \<Rightarrow> real \<Rightarrow> real" where
  "clamp v lo hi = min hi (max lo v)"

definition getContainerSize :: "env \<Rightarrow> dims" where
  "getContainerSize e = (case containerRef e of None \<Rightarrow> window e | Some el \<Rightarrow> el)"

definition getBoundsFor :: "env \<Rightarrow> real \<Rightarrow> real \<Rightarrow> real \<Rightarrow> bounds" where
  "getBoundsFor e imgNaturalW imgNaturalH nextScale =
     (let cw = width (getContainerSize e); ch = height (getContainerSize e);
          scaledW = imgNaturalW * nextScale;
          scaledH = imgNaturalH * nextScale
      in \<lparr> minX = min 0 (cw - scaledW), minY = min 0 (ch - scaledH) \<rparr>)"

definition calculateMinScale :: "env \<Rightarrow> image \<Rightarrow> real" where
  "calculateMinScale e im =
     (let cw = width (getContainerSize e); ch = height (getContainerSize e);
          scaleX = cw / naturalWidth im;
          scaleY = ch / naturalHeight im
      in max scaleX scaleY)"

definition centerImage :: "env \<Rightarrow> image \<Rightarrow> real \<Rightarrow> point" where
  "centerImage e im baseScale =
     (let cw = width (getContainerSize e); ch = height (getContainerSize e);
          scaledW = naturalWidth im * baseScale;
          scaledH = naturalHeight im * baseScale
      in \<lparr> px = (cw - scaledW) / 2, py = (ch - scaledH) / 2 \<rparr>)"

definition handleImageLoad :: "env \<Rightarrow> zoomable \<Rightarrow> zoomable" where
  "handleImageLoad e st =
     (case imgRef e of
        None \<Rightarrow> st
      | Some im \<Rightarrow>
          (let baseScale = calculateMinScale e im;
               centeredPos = centerImage e im baseScale
           in st\<lparr> minScale := baseScale, targetScale := baseScale,
                  scale := baseScale, pos := centeredPos \<rparr>))"

definition stopDragging :: "zoomable \<Rightarrow> zoomable" where
  "stopDragging st = st\<lparr> isDragging := False \<rparr>"

definition handleMouseDown :: "mouse_event \<Rightarrow> zoomable \<Rightarrow> zoomable" where
  "handleMouseDown ev st =
     st\<lparr> isDragging := True,
         dragStart := \<lparr> px = clientX ev - px (pos st), py = clientY ev - py (pos st) \<rparr> \<rparr>"

definition handleMouseMove :: "env \<Rightarrow> mouse_event \<Rightarrow> zoomable \<Rightarrow> zoomable" where
  "handleMouseMove e ev st =
     (if \<not> isDragging st then st
      else case imgRef e of
        None \<Rightarrow> st
      | Some im \<Rightarrow>
          (let b = getBoundsFor e (naturalWidth im) (naturalHeight im) (scale st);
               newX = clamp (clientX ev - px (dragStart st)) (minX b) 0;
               newY = clamp (clientY ev - py (dragStart st)) (minY b) 0
           in st\<lparr> pos := \<lparr> px = newX, py = newY \<rparr> \<rparr>))"

definition zoomIntensity :: real where
  "zoomIntensity = 0.0015"

definition handleWheel :: "env \<Rightarrow> wheel_event \<Rightarrow> zoomable \<Rightarrow> zoomable" where
  "handleWheel e ev st =
     (case imgRef e of
        None \<Rightarrow> st
      | Some im \<Rightarrow>
          (let r = boundingRect im;
               rx = (clientX ev - rect_left r) / rect_width r;
               ry = (clientY ev - rect_top r) / rect_height r;
               nextTarget = clamp (targetScale st - deltaY ev * zoomIntensity)
                              (minScale st) (minScale st * 5)
           in st\<lparr> lastWheel := \<lparr> wheel_x = clientX ev, wheel_y = clientY ev,
                                   relX = rx, relY = ry \<rparr>,
                  targetScale := nextTarget,
                  frameRequested := True \<rparr>))"

definition computeZoomedPos :: "env \<Rightarrow> image \<Rightarrow> wheel_info \<Rightarrow> real \<Rightarrow> point" where
  "computeZoomedPos e im lw nextScale =
     (let newW = naturalWidth im * nextScale;
          newH = naturalHeight im * nextScale;
          rawX = wheel_x lw - relX lw * newW;
          rawY = wheel_y lw - relY lw * newH;
          b = getBoundsFor e (naturalWidth im) (naturalHeight im) nextScale
      in \<lparr> px = clamp rawX (minX b) 0, py = clamp rawY (minY b) 0 \<rparr>)"

definition smoothZoomStep :: "env \<Rightarrow> zoomable \<Rightarrow> zoomable" where
  "smoothZoomStep e st =
     (case imgRef e of
        None \<Rightarrow> st
      | Some im \<Rightarrow>
          (let diff = targetScale st - scale st in
           if \<bar>diff\<bar> < 0.001 then
             (let snapped = targetScale st;
                  nextPos = computeZoomedPos e im (lastWheel st) snapped
              in st\<lparr> scale := snapped, pos := nextPos, frameRequested := False \<rparr>)
           else
             (let nextScale = clamp (scale st + diff * 0.25) (minScale st) (minScale st * 5);
                  nextPos = computeZoomedPos e im (lastWheel st) nextScale
              in st\<lparr> scale := nextScale, pos := nextPos, frameRequested := True \<rparr>)))"

text \<open>
  The properties the viewport claims speak of: the offset interval of the pan and zoom
  clamp, and the zoom range.
\<close>

definition offset_in_bounds :: "env \<Rightarrow> image \<Rightarrow> zoomable \<Rightarrow> bool" where
  "offset_in_bounds e im st \<longleftrightarrow>
     min 0 (width (getContainerSize e) - naturalWidth im * scale st) \<le> px (pos st) \<and>
     px (pos st) \<le> 0 \<and>
     min 0 (height (getContainerSize e) - naturalHeight im * scale st) \<le> py (pos st) \<and>
     py (pos st) \<le> 0"

definition covers_container :: "env \<Rightarrow> image \<Rightarrow> zoomable \<Rightarrow> bool" where
  "covers_container e im st \<longleftrightarrow>
     px (pos st) \<le> 0 \<and>
     width (getContainerSize e) \<le> px (pos st) + naturalWidth im * scale st \<and>
     py (pos st) \<le> 0 \<and>
     height (getContainerSize e) \<le> py (pos st) + naturalHeight im * scale st"

definition in_zoom_range :: "real \<Rightarrow> real \<Rightarrow> bool" where
  "in_zoom_range lo s \<longleftrightarrow> lo \<le> s \<and> s \<le> lo * 5"

section \<open>JavaScript values and pin objects\<close>

text \<open>
  A pin is a plain object as the server sends it: a finite map from property names to
  values. Reading a missing property gives \<open>undefined\<close>; the spread
  \<open>{...pin, ...patch}\<close> is the right-biased union of the two maps.
\<close>

datatype jsval = JUndefined | JNull | JBool bool | JNum real | JStr string

type_synonym obj = "string \<rightharpoonup> jsval"

definition get :: "obj \<Rightarrow> string \<Rightarrow> jsval" where
  "get ob k = (case ob k of None \<Rightarrow> JUndefined | Some v \<Rightarrow> v)"

definition nullish :: "jsval \<Rightarrow> bool" where
  "nullish v \<longleftrightarrow> v = JNull \<or> v = JUndefined"

datatype 'a api_result = Rejected | Resolved 'a

datatype js_error = TypeError

section \<open>PinLayer: dragging a marker\<close>

text \<open>
  \<open>dragRef\<close> is the mutable cell of the component. A handler runs with the props of
  the render it was created in, so every pointer event comes with those props. What a
  handler emits through \<open>onMovePin\<close> and \<open>onCommitMovePin\<close> is returned as a list of
  calls. Reading \<open>startClient.x\<close> while \<open>startClient\<close> is \<open>null\<close> throws. The calls
  on the event itself (\<open>preventDefault\<close>, \<open>stopPropagation\<close>, pointer capture) change
  nothing of this state and are left out.
\<close>

datatype mode = View | Edit

record pointer_event = mouse_event +
  pointerId :: int

record layer_props =
  p_mode :: mode
  p_transform :: transform
  p_imageSize :: dims

record dragRef =
  draggingPinId :: jsval
  ref_pointerId :: "int option"
  startClient :: "point option"
  lastPercent :: "percent option"
  hasMoved :: bool

datatype call = MovePin jsval percent | CommitMovePin jsval percent

definition initial_dragRef :: dragRef where
  "initial_dragRef =
     \<lparr> draggingPinId = JNull, ref_pointerId = None, startClient = None,
       lastPercent = None, hasMoved = False \<rparr>"

definition hypot :: "real \<Rightarrow> real \<Rightarrow> real" where
  "hypot dx dy = sqrt (dx\<^sup>2 + dy\<^sup>2)"

definition DRAG_THRESHOLD_PX :: real where
  "DRAG_THRESHOLD_PX = 4"

definition startDrag :: "layer_props \<Rightarrow> pointer_event \<Rightarrow> jsval \<Rightarrow> dragRef \<Rightarrow> dragRef" where
  "startDrag p ev pinId r =
     (if p_mode p \<noteq> Edit then r
      else if \<not> hasImageSize (p_imageSize p) then r
      else r\<lparr> draggingPinId := pinId,
              ref_pointerId := Some (pointerId ev),
              startClient := Some \<lparr> px = clientX ev, py = clientY ev \<rparr>,
              lastPercent := None,
              hasMoved := False \<rparr>)"

definition moveDrag ::
  "layer_props \<Rightarrow> pointer_event \<Rightarrow> dragRef \<Rightarrow> js_error + (dragRef \<times> call list)" where
  "moveDrag p ev r =
     (if nullish (draggingPinId r) then Inr (r, [])
      else if ref_pointerId r \<noteq> Some (pointerId ev) then Inr (r, [])
      else if \<not> hasImageSize (p_imageSize p) then Inr (r, [])
      else case startClient r of
        None \<Rightarrow> Inl TypeError
      | Some sc \<Rightarrow>
          (let dx = clientX ev - px sc;
               dy = clientY ev - py sc
           in if \<not> hasMoved r \<and> hypot dx dy < DRAG_THRESHOLD_PX then Inr (r, [])
              else
                (let next = toPercent (p_transform p) (p_imageSize p) (clientX ev) (clientY ev)
                 in Inr (r\<lparr> hasMoved := True, lastPercent := Some next \<rparr>,
                         [MovePin (draggingPinId r) next]))))"

definition endDrag :: "pointer_event \<Rightarrow> dragRef \<Rightarrow> dragRef \<times> call list" where
  "endDrag ev r =
     (if nullish (draggingPinId r) then (r, [])
      else if ref_pointerId r \<noteq> Some (pointerId ev) then (r, [])
      else
        (r\<lparr> draggingPinId := JNull, ref_pointerId := None, startClient := None,
            lastPercent := None, hasMoved := False \<rparr>,
         case lastPercent r of
           None \<Rightarrow> []
         | Some lp \<Rightarrow> if hasMoved r then [CommitMovePin (draggingPinId r) lp] else []))"

text \<open>
  One drag session: pointer-down on a marker, the pointer-moves in order, then pointer-up
  or pointer-cancel (both are \<open>endDrag\<close>). The calls are collected in the order emitted.
\<close>

fun moveDrags ::
  "(layer_props \<times> pointer_event) list \<Rightarrow> dragRef \<Rightarrow> js_error + (dragRef \<times> call list)" where
  "moveDrags [] r = Inr (r, [])"
| "moveDrags (m # ms) r =
     (case moveDrag (fst m) (snd m) r of
        Inl err \<Rightarrow> Inl err
      | Inr (r', cs) \<Rightarrow>
          (case moveDrags ms r' of
             Inl err \<Rightarrow> Inl err
           | Inr (r'', cs') \<Rightarrow> Inr (r'', cs @ cs')))"

definition drag_session ::
  "layer_props \<Rightarrow> pointer_event \<Rightarrow> jsval \<Rightarrow> (layer_props \<times> pointer_event) list \<Rightarrow>
   pointer_event \<Rightarrow> dragRef \<Rightarrow> js_error + (dragRef \<times> call list)" where
  "drag_session p down pinId ms up r =
     (case moveDrags ms (startDrag p down pinId r) of
        Inl err \<Rightarrow> Inl err
      | Inr (r', cs) \<Rightarrow> Inr (fst (endDrag up r'), cs @ snd (endDrag up r')))"

definition below_threshold :: "pointer_event \<Rightarrow> layer_props \<times> pointer_event \<Rightarrow> bool" where
  "below_threshold down m \<longleftrightarrow>
     hypot (clientX (snd m) - clientX down) (clientY (snd m) - clientY down) < DRAG_THRESHOLD_PX"

definition percent_at :: "layer_props \<times> pointer_event \<Rightarrow> percent" where
  "percent_at m =
     toPercent (p_transform (fst m)) (p_imageSize (fst m)) (clientX (snd m)) (clientY (snd m))"

definition percent_in_range :: "percent \<Rightarrow> bool" where
  "percent_in_range p \<longleftrightarrow>
     0 \<le> xPercent p \<and> xPercent p \<le> 100 \<and> 0 \<le> yPercent p \<and> yPercent p \<le> 100"

fun call_percent :: "call \<Rightarrow> percent" where
  "call_percent (MovePin pinId p) = p"
| "call_percent (CommitMovePin pinId p) = p"

definition cleared :: "dragRef \<Rightarrow> dragRef" where
  "cleared r =
     r\<lparr> draggingPinId := JNull, ref_pointerId := None, startClient := None,
        lastPercent := None, hasMoved := False \<rparr>"

text \<open>
  While a pin is being dragged the cell holds the start point: the cell states in which
  \<open>moveDrag\<close> does not throw.
\<close>

definition ref_consistent :: "dragRef \<Rightarrow> bool" where
  "ref_consistent r \<longleftrightarrow> nullish (draggingPinId r) \<or> startClient r \<noteq> None"

definition ref_in_range :: "dragRef \<Rightarrow> bool" where
  "ref_in_range r \<longleftrightarrow>
     (case lastPercent r of None \<Rightarrow> True | Some q \<Rightarrow> percent_in_range q)"

section \<open>App: the local pin list\<close>

text \<open>
  The state cells of \<open>App\<close> and its two refs. An asynchronous handler awaits one request
  of the persistence API; the outcome of that request is an argument of the handler, and
  the state it is applied to is the state at the time the request settles (the setters
  use functional updates).
\<close>

record app =
  mode :: mode
  pins :: "obj list"
  selectedPinId :: jsval
  isDetailsOpen :: bool
  transformRef :: transform
  imageSizeRef :: dims

definition NEW_PIN_DEFAULTS :: obj where
  "NEW_PIN_DEFAULTS =
     [''name'' \<mapsto> JStr ''New little plant'',
      ''type'' \<mapsto> JStr ''Plantus unidentifiedus'',
      ''wateringIntervalDays'' \<mapsto> JNull]"

definition updatePinLocal :: "jsval \<Rightarrow> obj \<Rightarrow> app \<Rightarrow> app" where
  "updatePinLocal pinId patchOrDto st =
     st\<lparr> pins := map (\<lambda>pin. if get pin ''id'' = pinId then pin ++ patchOrDto else pin)
                    (pins st) \<rparr>"

definition handleTransformChange :: "transform \<Rightarrow> app \<Rightarrow> app" where
  "handleTransformChange tr st = st\<lparr> transformRef := tr \<rparr>"

definition handleImageMeta :: "image \<Rightarrow> app \<Rightarrow> app" where
  "handleImageMeta im st =
     st\<lparr> imageSizeRef := \<lparr> width = naturalWidth im, height = naturalHeight im \<rparr> \<rparr>"

text \<open>
  \<open>addPinAtClient\<close> in two parts: the payload it builds before the request (none when
  it returns early), and what it does with the outcome of \<open>createPin\<close>.
\<close>

definition addPin_payload :: "app \<Rightarrow> real \<Rightarrow> real \<Rightarrow> obj option" where
  "addPin_payload st cx cy =
     (let tr = transformRef st; sz = imageSizeRef st in
      if width sz = 0 \<or> height sz = 0 then None
      else
        (let xp = ((cx - px (pos tr)) / (width sz * scale tr)) * 100;
             yp = ((cy - py (pos tr)) / (height sz * scale tr)) * 100
         in Some ([''xPercent'' \<mapsto> JNum (clampPercent xp),
                   ''yPercent'' \<mapsto> JNum (clampPercent yp)] ++ NEW_PIN_DEFAULTS)))"

definition addPinAtClient :: "obj api_result \<Rightarrow> real \<Rightarrow> real \<Rightarrow> app \<Rightarrow> app" where
  "addPinAtClient createPin_result cx cy st =
     (case addPin_payload st cx cy of
        None \<Rightarrow> st
      | Some payload \<Rightarrow>
          (case createPin_result of
             Resolved created \<Rightarrow> st\<lparr> pins := pins st @ [created] \<rparr>
           | Rejected \<Rightarrow> st))"

definition percent_patch :: "percent \<Rightarrow> obj" where
  "percent_patch p = [''xPercent'' \<mapsto> JNum (xPercent p), ''yPercent'' \<mapsto> JNum (yPercent p)]"

definition handleMovePin :: "jsval \<Rightarrow> percent \<Rightarrow> app \<Rightarrow> app" where
  "handleMovePin pinId p st = updatePinLocal pinId (percent_patch p) st"

definition handleCommitMovePin :: "obj api_result \<Rightarrow> jsval \<Rightarrow> percent \<Rightarrow> app \<Rightarrow> app" where
  "handleCommitMovePin patchPin_result pinId p st =
     (case patchPin_result of
        Resolved updated \<Rightarrow> updatePinLocal pinId updated st
      | Rejected \<Rightarrow> st)"

definition handleMarkWatered :: "obj api_result \<Rightarrow> jsval \<Rightarrow> app \<Rightarrow> app" where
  "handleMarkWatered waterPin_result pinId st =
     (case waterPin_result of
        Resolved updated \<Rightarrow> updatePinLocal pinId updated st
      | Rejected \<Rightarrow> st)"

text \<open>\<open>handleUpdatePin\<close> rethrows a failure; the state is then as it was.\<close>

definition handleUpdatePin :: "obj api_result \<Rightarrow> jsval \<Rightarrow> obj \<Rightarrow> app \<Rightarrow> app \<times> bool" where
  "handleUpdatePin patchPin_result pinId patch st =
     (case patchPin_result of
        Resolved updated \<Rightarrow> (updatePinLocal pinId updated st, False)
      | Rejected \<Rightarrow> (st, True))"

definition handleDeletePin :: "unit api_result \<Rightarrow> jsval \<Rightarrow> app \<Rightarrow> app" where
  "handleDeletePin deletePin_result pinId st =
     (case deletePin_result of
        Resolved u \<Rightarrow>
          st\<lparr> pins := filter (\<lambda>p. get p ''id'' \<noteq> pinId) (pins st),
              isDetailsOpen := False,
              selectedPinId := JNull \<rparr>
      | Rejected \<Rightarrow> st)"

text \<open>
  The frame of a local pin update: the list keeps its length, and at every position whose
  pin has another id the pin is the same as before.
\<close>

definition only_pin_changed :: "jsval \<Rightarrow> obj list \<Rightarrow> obj list \<Rightarrow> bool" where
  "only_pin_changed pinId old new \<longleftrightarrow>
     length new = length old \<and>
     (\<forall>i < length old. get (old ! i) ''id'' \<noteq> pinId \<longrightarrow> new ! i = old ! i)"

section \<open>DateFormatter\<close>

text \<open>
  \<open>new Date(s).getTime()\<close> is the runtime's: it is the parameter \<open>parseDate\<close>, giving
  the time in milliseconds or nothing for an invalid date (\<open>NaN\<close>). The current time
  \<open>now\<close> is a parameter too. Times are integers, so the floor of the quotient by the
  length of a day is integer division. \<open>string_of_nat\<close> is the decimal numeral that a
  template literal prints for a non-negative integer.
\<close>

fun string_of_nat :: "nat \<Rightarrow> string" where
  "string_of_nat n =
     (if n < 10 then [''0123456789'' ! n]
      else string_of_nat (n div 10) @ [''0123456789'' ! (n mod 10)])"

declare string_of_nat.simps [simp del]

definition MS_PER_DAY :: int where
  "MS_PER_DAY = 1000 * 60 * 60 * 24"

definition formatLastWatered :: "(string \<Rightarrow> int option) \<Rightarrow> int \<Rightarrow> string option \<Rightarrow> string" where
  "formatLastWatered parseDate now lastWateredIso =
     (case lastWateredIso of
        None \<Rightarrow> ''Probably''
      | Some s \<Rightarrow>
          if s = [] then ''Probably''
          else case parseDate s of
            None \<Rightarrow> ''Probably''
          | Some lastMs \<Rightarrow>
              (let diffMs = now - lastMs in
               if diffMs \<le> 0 then ''Today''
               else
                 (let diffDays = diffMs div MS_PER_DAY in
                  if diffDays \<le> 0 then ''Today''
                  else if diffDays = 1 then ''1 day ago''
                  else string_of_nat (nat diffDays) @ '' days ago'')))"

section \<open>A concrete viewport\<close>

text \<open>
  The container of 800 by 600 pixels with a natural image of 1600 by 900 pixels; the
  bounding box is the one the image has once it is loaded and centred.
\<close>

definition example_image :: image where
  "example_image =
     \<lparr> naturalWidth = 1600, naturalHeight = 900,
       boundingRect = \<lparr> rect_left = - 400 / 3, rect_top = 0,
                        rect_width = 3200 / 3, rect_height = 600 \<rparr> \<rparr>"

definition example_env :: env where
  "example_env =
     \<lparr> containerRef = Some \<lparr> width = 800, height = 600 \<rparr>,
       window = \<lparr> width = 1920, height = 1080 \<rparr>,
       imgRef = Some example_image \<rparr>"

text \<open>A marker layer in edit mode over the loaded image, and pointer events of one pointer.\<close>

definition example_props :: layer_props where
  "example_props =
     \<lparr> p_mode = Edit, p_transform = \<lparr> scale = 2, pos = \<lparr> px = 0, py = 0 \<rparr> \<rparr>,
       p_imageSize = \<lparr> width = 1600, height = 900 \<rparr> \<rparr>"

definition pointer_at :: "real \<Rightarrow> real \<Rightarrow> pointer_event" where
  "pointer_at cx cy = \<lparr> clientX = cx, clientY = cy, pointerId = 1 \<rparr>"

text \<open>An application state with two pins, the first selected with its details open.\<close>

definition example_pin :: "real \<Rightarrow> obj" where
  "example_pin n =
     [''id'' \<mapsto> JNum n, ''xPercent'' \<mapsto> JNum 10, ''yPercent'' \<mapsto> JNum 20,
      ''name'' \<mapsto> JStr ''Rose'', ''type'' \<mapsto> JStr ''Rosa'',
      ''wateringIntervalDays'' \<mapsto> JNum 3, ''lastWatered'' \<mapsto> JNull]"

definition example_app :: app where
  "example_app =
     \<lparr> mode = Edit, pins = [example_pin 7, example_pin 8], selectedPinId = JNum 7,
       isDetailsOpen = True,
       transformRef = \<lparr> scale = 2, pos = \<lparr> px = 0, py = 0 \<rparr> \<rparr>,
       imageSizeRef = \<lparr> width = 1600, height = 900 \<rparr> \<rparr>"

text \<open>
  A fragment of the runtime's date parser: one ISO timestamp with its time value in
  milliseconds, every other string taken as invalid.
\<close>

definition example_parseDate :: "string \<Rightarrow> int option" where
  "example_parseDate s = (if s = ''2026-02-20T10:12:30Z'' then Some 1771582350000 else None)"

section \<open>Round trip of the coordinate conversions\<close>

lemma clampPercent_id: "0 \<le> v \<Longrightarrow> v \<le> 100 \<Longrightarrow> clampPercent v = v"
  by (simp add: clampPercent_def)

lemma clampPercent_range: "0 \<le> clampPercent v \<and> clampPercent v \<le> 100"
  by (simp add: clampPercent_def)

text \<open>
  C1. For percentages in [0,100], a positive scale and a natural image size with positive
  width and height, converting to screen coordinates and back under the same transform
  returns the percentages: over the reals the round trip is exact.
\<close>

theorem toPercent_toScreen_roundtrip:
  assumes "0 \<le> x" "x \<le> 100" "0 \<le> y" "y \<le> 100"
    and "0 < scale tr" "0 < width imageSize" "0 < height imageSize"
  shows "toPercent tr imageSize (left (toScreen tr imageSize x y))
           (top_px (toScreen tr imageSize x y)) = \<lparr> xPercent = x, yPercent = y \<rparr>"
proof -
  have w: "width imageSize * scale tr \<noteq> 0" and h: "height imageSize * scale tr \<noteq> 0"
    using assms by simp_all
  have "((x / 100) * width imageSize * scale tr) / (width imageSize * scale tr) * 100 = x"
    using w by (simp add: field_simps)
  moreover
  have "((y / 100) * height imageSize * scale tr) / (height imageSize * scale tr) * 100 = y"
    using h by (simp add: field_simps)
  ultimately show ?thesis
    using assms by (simp add: toPercent_def toScreen_def clampPercent_id)
qed

theorem toPercent_toScreen_roundtrip_witness:
  "toPercent \<lparr> scale = 2, pos = \<lparr> px = -30, py = 10 \<rparr> \<rparr> \<lparr> width = 1600, height = 900 \<rparr>
     (left (toScreen \<lparr> scale = 2, pos = \<lparr> px = -30, py = 10 \<rparr> \<rparr>
              \<lparr> width = 1600, height = 900 \<rparr> 25 100))
     (top_px (toScreen \<lparr> scale = 2, pos = \<lparr> px = -30, py = 10 \<rparr> \<rparr>
              \<lparr> width = 1600, height = 900 \<rparr> 25 100))
   = \<lparr> xPercent = 25, yPercent = 100 \<rparr>"
  using toPercent_toScreen_roundtrip
    [of 25 100 "\<lparr> scale = 2, pos = \<lparr> px = -30, py = 10 \<rparr> \<rparr>" "\<lparr> width = 1600, height = 900 \<rparr>"]
  by simp

section \<open>The viewport: pan bounds and zoom range\<close>

lemma computeZoomedPos_bounds:
  "min 0 (width (getContainerSize e) - naturalWidth im * s) \<le> px (computeZoomedPos e im lw s) \<and>
   px (computeZoomedPos e im lw s) \<le> 0 \<and>
   min 0 (height (getContainerSize e) - naturalHeight im * s) \<le> py (computeZoomedPos e im lw s) \<and>
   py (computeZoomedPos e im lw s) \<le> 0"
  by (simp add: computeZoomedPos_def getBoundsFor_def Let_def clamp_def)

lemma handleMouseMove_in_bounds:
  "imgRef e = Some im \<Longrightarrow> isDragging st \<Longrightarrow> offset_in_bounds e im (handleMouseMove e ev st)"
  by (simp add: handleMouseMove_def offset_in_bounds_def getBoundsFor_def Let_def clamp_def)

lemma smoothZoomStep_in_bounds:
  "imgRef e = Some im \<Longrightarrow> offset_in_bounds e im (smoothZoomStep e st)"
  using computeZoomedPos_bounds [of e im]
  by (simp add: smoothZoomStep_def offset_in_bounds_def Let_def)

lemma in_zoom_range_clamp: "0 \<le> lo \<Longrightarrow> in_zoom_range lo (clamp v lo (lo * 5))"
  by (simp add: in_zoom_range_def clamp_def)

lemma smoothZoomStep_scale:
  "imgRef e = Some im \<Longrightarrow> 0 \<le> minScale st \<Longrightarrow> in_zoom_range (minScale st) (targetScale st)
   \<Longrightarrow> in_zoom_range (minScale st) (scale (smoothZoomStep e st))"
  by (simp add: smoothZoomStep_def Let_def in_zoom_range_clamp)

lemma smoothZoomStep_keeps:
  "minScale (smoothZoomStep e st) = minScale st \<and>
   targetScale (smoothZoomStep e st) = targetScale st"
  by (simp add: smoothZoomStep_def Let_def split: option.splits)

lemma smoothZoomStep_funpow_keeps:
  "minScale ((smoothZoomStep e ^^ n) st) = minScale st \<and>
   targetScale ((smoothZoomStep e ^^ n) st) = targetScale st"
  by (induction n) (simp_all add: smoothZoomStep_keeps)

lemma handleWheel_target:
  "imgRef e = Some im \<Longrightarrow> 0 \<le> minScale st \<Longrightarrow>
   in_zoom_range (minScale st) (targetScale (handleWheel e ev st)) \<and>
   minScale (handleWheel e ev st) = minScale st"
  by (simp add: handleWheel_def Let_def in_zoom_range_clamp)

lemma covers_from_bounds:
  assumes "0 < naturalWidth im" "0 < naturalHeight im"
    and "calculateMinScale e im \<le> scale st" and "offset_in_bounds e im st"
  shows "covers_container e im st"
proof -
  have "width (getContainerSize e) / naturalWidth im \<le> scale st"
    and "height (getContainerSize e) / naturalHeight im \<le> scale st"
    using assms(3) by (simp_all add: calculateMinScale_def Let_def)
  then have "width (getContainerSize e) \<le> naturalWidth im * scale st"
    and "height (getContainerSize e) \<le> naturalHeight im * scale st"
    using assms(1,2) by (simp_all add: pos_divide_le_eq mult.commute)
  then show ?thesis
    using assms(4) by (simp add: covers_container_def offset_in_bounds_def)
qed

text \<open>
  The cover scale is not negative for a container and an image of real sizes, and the
  state after a load satisfies what the zoom statements below assume.
\<close>

lemma handleImageLoad_establishes:
  assumes "imgRef e = Some im" "0 < naturalWidth im" "0 < naturalHeight im"
    and "0 \<le> width (getContainerSize e)"
  shows "0 \<le> minScale (handleImageLoad e st) \<and>
         minScale (handleImageLoad e st) = calculateMinScale e im \<and>
         targetScale (handleImageLoad e st) = minScale (handleImageLoad e st) \<and>
         scale (handleImageLoad e st) = minScale (handleImageLoad e st)"
proof -
  have "0 \<le> width (getContainerSize e) / naturalWidth im"
    using assms by simp
  then have "0 \<le> calculateMinScale e im"
    by (simp add: calculateMinScale_def Let_def max_def)
  then show ?thesis
    using assms(1) by (simp add: handleImageLoad_def Let_def)
qed

text \<open>
  C2. After a pan pointer-move (a mouse move while dragging) and after a zoom animation
  step, the snap to the target included, each axis of the offset lies in
  \<open>[min(0, containerSize - naturalSize * scale), 0]\<close> for the scale then current. When
  the scale is at least the cover scale of the container, as it is from image load on,
  the image then covers the container: no space beyond its edges is visible. The same
  interval holds after every animation step that follows a wheel event on an image whose
  bounding box is not empty (the wheel handler divides by its width and height).
\<close>

theorem offset_within_bounds_after_pan_and_zoom:
  assumes "imgRef e = Some im"
  shows "(isDragging st \<longrightarrow> offset_in_bounds e im (handleMouseMove e ev st)) \<and>
         offset_in_bounds e im (smoothZoomStep e st) \<and>
         (isDragging st \<and> 0 < naturalWidth im \<and> 0 < naturalHeight im \<and>
          calculateMinScale e im \<le> scale st \<longrightarrow>
            covers_container e im (handleMouseMove e ev st)) \<and>
         (0 < naturalWidth im \<and> 0 < naturalHeight im \<and>
          minScale st = calculateMinScale e im \<and> 0 \<le> minScale st \<and>
          in_zoom_range (minScale st) (targetScale st) \<longrightarrow>
            covers_container e im (smoothZoomStep e st)) \<and>
         (rect_width (boundingRect im) \<noteq> 0 \<and> rect_height (boundingRect im) \<noteq> 0 \<longrightarrow>
            offset_in_bounds e im ((smoothZoomStep e ^^ Suc n) (handleWheel e wev st)))"
proof (intro conjI impI)
  show "offset_in_bounds e im (smoothZoomStep e st)"
    using assms by (rule smoothZoomStep_in_bounds)
next
  show "offset_in_bounds e im ((smoothZoomStep e ^^ Suc n) (handleWheel e wev st))"
    using assms by (simp add: smoothZoomStep_in_bounds)
next
  assume "isDragging st"
  then show "offset_in_bounds e im (handleMouseMove e ev st)"
    using assms by (simp add: handleMouseMove_in_bounds)
next
  assume a: "isDragging st \<and> 0 < naturalWidth im \<and> 0 < naturalHeight im \<and>
          calculateMinScale e im \<le> scale st"
  have "scale (handleMouseMove e ev st) = scale st"
    using assms by (simp add: handleMouseMove_def Let_def)
  then show "covers_container e im (handleMouseMove e ev st)"
    using a assms by (intro covers_from_bounds) (simp_all add: handleMouseMove_in_bounds)
next
  assume a: "0 < naturalWidth im \<and> 0 < naturalHeight im \<and>
          minScale st = calculateMinScale e im \<and> 0 \<le> minScale st \<and>
          in_zoom_range (minScale st) (targetScale st)"
  then have "0 \<le> minScale st" and "in_zoom_range (minScale st) (targetScale st)"
    by blast+
  with assms have "in_zoom_range (minScale st) (scale (smoothZoomStep e st))"
    by (rule smoothZoomStep_scale)
  then have "calculateMinScale e im \<le> scale (smoothZoomStep e st)"
    using a by (simp add: in_zoom_range_def)
  then show "covers_container e im (smoothZoomStep e st)"
    using a assms by (intro covers_from_bounds) (simp_all add: smoothZoomStep_in_bounds)
qed

text \<open>
  C3. With an image present and a non-negative \<open>minScale\<close>, a wheel event leaves the
  target scale in \<open>[minScale, minScale * 5]\<close> whatever the wheel delta: a candidate
  below the range becomes \<open>minScale\<close>, one above it becomes \<open>minScale * 5\<close>, one
  inside it is kept. The rendered scale after each animation step that follows the wheel
  event is in the range too. Image load sets \<open>minScale\<close> to
  \<open>max(containerWidth / naturalWidth, containerHeight / naturalHeight)\<close>.
\<close>

theorem zoom_scale_within_range:
  assumes "imgRef e = Some im" and "0 \<le> minScale st"
  shows "in_zoom_range (minScale st) (targetScale (handleWheel e ev st)) \<and>
         (targetScale st - deltaY ev * zoomIntensity < minScale st \<longrightarrow>
            targetScale (handleWheel e ev st) = minScale st) \<and>
         (minScale st * 5 < targetScale st - deltaY ev * zoomIntensity \<longrightarrow>
            targetScale (handleWheel e ev st) = minScale st * 5) \<and>
         (in_zoom_range (minScale st) (targetScale st - deltaY ev * zoomIntensity) \<longrightarrow>
            targetScale (handleWheel e ev st) = targetScale st - deltaY ev * zoomIntensity) \<and>
         in_zoom_range (minScale st)
           (scale ((smoothZoomStep e ^^ Suc n) (handleWheel e ev st))) \<and>
         (0 < naturalWidth im \<and> 0 < naturalHeight im \<longrightarrow>
            minScale (handleImageLoad e st) =
              max (width (getContainerSize e) / naturalWidth im)
                  (height (getContainerSize e) / naturalHeight im))"
proof (intro conjI impI)
  let ?w = "handleWheel e ev st"
  let ?s = "(smoothZoomStep e ^^ n) ?w"
  show w: "in_zoom_range (minScale st) (targetScale ?w)"
    using assms by (simp add: handleWheel_target)
  have m: "minScale ?w = minScale st"
    using assms by (simp add: handleWheel_target)
  have k: "minScale ?s = minScale st" "targetScale ?s = targetScale ?w"
    using m by (simp_all add: smoothZoomStep_funpow_keeps)
  then have "in_zoom_range (minScale ?s) (scale (smoothZoomStep e ?s))"
    using assms w by (intro smoothZoomStep_scale) simp_all
  then show "in_zoom_range (minScale st) (scale ((smoothZoomStep e ^^ Suc n) ?w))"
    using k(1) by simp
next
  assume "targetScale st - deltaY ev * zoomIntensity < minScale st"
  then show "targetScale (handleWheel e ev st) = minScale st"
    using assms by (simp add: handleWheel_def Let_def clamp_def)
next
  assume "minScale st * 5 < targetScale st - deltaY ev * zoomIntensity"
  then show "targetScale (handleWheel e ev st) = minScale st * 5"
    using assms by (simp add: handleWheel_def Let_def clamp_def)
next
  assume "in_zoom_range (minScale st) (targetScale st - deltaY ev * zoomIntensity)"
  then show "targetScale (handleWheel e ev st) = targetScale st - deltaY ev * zoomIntensity"
    using assms by (simp add: handleWheel_def Let_def clamp_def in_zoom_range_def)
next
  show "minScale (handleImageLoad e st) =
              max (width (getContainerSize e) / naturalWidth im)
                  (height (getContainerSize e) / naturalHeight im)"
    using assms by (simp add: handleImageLoad_def calculateMinScale_def Let_def)
qed

text \<open>
  C5. For the container of 800 by 600 and the image of 1600 by 900, image load sets the
  scale, whatever the state before, to \<open>max(800/1600, 600/900) = 2/3\<close>, which is 0.667
  to three places, and centres the image: the vertical offset is 0 and the horizontal
  offset is \<open>(800 - 1600 * 2/3) / 2 = - 400/3\<close>, about -133.33.
\<close>

theorem initial_transform_800_600:
  "minScale (handleImageLoad example_env st) = 2 / 3 \<and>
   targetScale (handleImageLoad example_env st) = 2 / 3 \<and>
   scale (handleImageLoad example_env st) = 2 / 3 \<and>
   \<bar>scale (handleImageLoad example_env st) - 0.667\<bar> < 0.001 \<and>
   py (pos (handleImageLoad example_env st)) = 0 \<and>
   px (pos (handleImageLoad example_env st)) = (800 - 1600 * (2 / 3)) / 2 \<and>
   px (pos (handleImageLoad example_env st)) = - 400 / 3"
  by (simp add: handleImageLoad_def example_env_def example_image_def calculateMinScale_def
      centerImage_def getContainerSize_def Let_def)

text \<open>
  The horizontal offset after image load in that viewport is not 0: at the cover scale
  the image is wider than the container and overflows it by the same amount on both
  sides.
\<close>

theorem initial_offset_x_is_not_zero:
  "px (pos (handleImageLoad example_env initial_zoomable)) \<noteq> 0"
  by (simp add: handleImageLoad_def example_env_def example_image_def calculateMinScale_def
      centerImage_def getContainerSize_def initial_zoomable_def Let_def)

section \<open>Dragging a marker: what a session emits\<close>

lemma moveDrag_emits:
  assumes "\<not> nullish (draggingPinId r)" "ref_pointerId r = Some (pointerId (snd m))"
    and "hasImageSize (p_imageSize (fst m))" "startClient r = Some sc"
    and "hasMoved r \<or>
         \<not> hypot (clientX (snd m) - px sc) (clientY (snd m) - py sc) < DRAG_THRESHOLD_PX"
  shows "moveDrag (fst m) (snd m) r =
           Inr (r\<lparr> hasMoved := True, lastPercent := Some (percent_at m) \<rparr>,
                [MovePin (draggingPinId r) (percent_at m)])"
  using assms by (auto simp: moveDrag_def Let_def percent_at_def)

lemma moveDrag_silent:
  assumes "\<not> nullish (draggingPinId r)" "ref_pointerId r = Some (pointerId (snd m))"
    and "hasImageSize (p_imageSize (fst m))" "startClient r = Some sc"
    and "\<not> hasMoved r"
    and "hypot (clientX (snd m) - px sc) (clientY (snd m) - py sc) < DRAG_THRESHOLD_PX"
  shows "moveDrag (fst m) (snd m) r = Inr (r, [])"
  using assms by (simp add: moveDrag_def Let_def)

lemma moveDrags_after_threshold:
  assumes "\<not> nullish (draggingPinId r)" "ref_pointerId r = Some pid" "startClient r = Some sc"
    and "hasMoved r"
    and "\<forall>m\<in>set ms. pointerId (snd m) = pid \<and> hasImageSize (p_imageSize (fst m))"
  shows "moveDrags ms r =
           Inr (if ms = [] then r
                else r\<lparr> hasMoved := True, lastPercent := Some (percent_at (last ms)) \<rparr>,
                map (\<lambda>m. MovePin (draggingPinId r) (percent_at m)) ms)"
  using assms
proof (induction ms arbitrary: r)
  case Nil
  then show ?case by simp
next
  case (Cons m ms)
  let ?r' = "r\<lparr> hasMoved := True, lastPercent := Some (percent_at m) \<rparr>"
  have step: "moveDrag (fst m) (snd m) r = Inr (?r', [MovePin (draggingPinId r) (percent_at m)])"
    using Cons.prems by (intro moveDrag_emits) simp_all
  have rest: "moveDrags ms ?r' =
           Inr (if ms = [] then ?r'
                else ?r'\<lparr> hasMoved := True, lastPercent := Some (percent_at (last ms)) \<rparr>,
                map (\<lambda>m. MovePin (draggingPinId ?r') (percent_at m)) ms)"
    using Cons.prems by (intro Cons.IH) simp_all
  show ?case
    by (simp add: step rest)
qed

lemma moveDrags_from_start:
  assumes "\<not> nullish (draggingPinId r)" "ref_pointerId r = Some (pointerId down)"
    and "startClient r = Some \<lparr> px = clientX down, py = clientY down \<rparr>"
    and "\<not> hasMoved r"
    and "\<forall>m\<in>set ms. pointerId (snd m) = pointerId down \<and> hasImageSize (p_imageSize (fst m))"
  shows "moveDrags ms r =
           Inr (if dropWhile (below_threshold down) ms = [] then r
                else r\<lparr> hasMoved := True,
                        lastPercent :=
                          Some (percent_at (last (dropWhile (below_threshold down) ms))) \<rparr>,
                map (\<lambda>m. MovePin (draggingPinId r) (percent_at m))
                  (dropWhile (below_threshold down) ms))"
  using assms
proof (induction ms)
  case Nil
  then show ?case by simp
next
  case (Cons m ms)
  show ?case
  proof (cases "below_threshold down m")
    case True
    have "moveDrag (fst m) (snd m) r = Inr (r, [])"
      using Cons.prems True
      by (intro moveDrag_silent [where sc = "\<lparr> px = clientX down, py = clientY down \<rparr>"])
         (simp_all add: below_threshold_def)
    moreover have "moveDrags ms r =
           Inr (if dropWhile (below_threshold down) ms = [] then r
                else r\<lparr> hasMoved := True,
                        lastPercent :=
                          Some (percent_at (last (dropWhile (below_threshold down) ms))) \<rparr>,
                map (\<lambda>m. MovePin (draggingPinId r) (percent_at m))
                  (dropWhile (below_threshold down) ms))"
      using Cons.prems by (intro Cons.IH) simp_all
    ultimately show ?thesis
      using True by simp
  next
    case False
    let ?r' = "r\<lparr> hasMoved := True, lastPercent := Some (percent_at m) \<rparr>"
    have step:
      "moveDrag (fst m) (snd m) r = Inr (?r', [MovePin (draggingPinId r) (percent_at m)])"
      using Cons.prems False
      by (intro moveDrag_emits [where sc = "\<lparr> px = clientX down, py = clientY down \<rparr>"])
         (simp_all add: below_threshold_def)
    have rest: "moveDrags ms ?r' =
           Inr (if ms = [] then ?r'
                else ?r'\<lparr> hasMoved := True, lastPercent := Some (percent_at (last ms)) \<rparr>,
                map (\<lambda>m. MovePin (draggingPinId ?r') (percent_at m)) ms)"
      using Cons.prems
      by (intro moveDrags_after_threshold [where pid = "pointerId down"
            and sc = "\<lparr> px = clientX down, py = clientY down \<rparr>"]) simp_all
    show ?thesis
      using False by (simp add: step rest)
  qed
qed

lemma drag_session_calls:
  assumes "p_mode p = Edit" "hasImageSize (p_imageSize p)" "\<not> nullish pinId"
    and "\<forall>m\<in>set ms. pointerId (snd m) = pointerId down \<and> hasImageSize (p_imageSize (fst m))"
    and "pointerId up = pointerId down"
  shows "drag_session p down pinId ms up r =
           Inr (cleared r,
                map (\<lambda>m. MovePin pinId (percent_at m)) (dropWhile (below_threshold down) ms) @
                (if dropWhile (below_threshold down) ms = [] then []
                 else [CommitMovePin pinId
                         (percent_at (last (dropWhile (below_threshold down) ms)))]))"
proof -
  let ?s = "startDrag p down pinId r"
  have s: "?s = r\<lparr> draggingPinId := pinId, ref_pointerId := Some (pointerId down),
              startClient := Some \<lparr> px = clientX down, py = clientY down \<rparr>,
              lastPercent := None, hasMoved := False \<rparr>"
    using assms by (simp add: startDrag_def)
  have "moveDrags ms ?s =
           Inr (if dropWhile (below_threshold down) ms = [] then ?s
                else ?s\<lparr> hasMoved := True,
                        lastPercent :=
                          Some (percent_at (last (dropWhile (below_threshold down) ms))) \<rparr>,
                map (\<lambda>m. MovePin (draggingPinId ?s) (percent_at m))
                  (dropWhile (below_threshold down) ms))"
    using assms by (intro moveDrags_from_start) (simp_all add: s)
  then show ?thesis
    using assms by (simp add: drag_session_def endDrag_def s cleared_def)
qed

lemma hypot_below_threshold:
  "hypot dx dy < DRAG_THRESHOLD_PX \<longleftrightarrow> dx\<^sup>2 + dy\<^sup>2 < 16"
proof -
  have "sqrt (dx\<^sup>2 + dy\<^sup>2) < sqrt 16 \<longleftrightarrow> dx\<^sup>2 + dy\<^sup>2 < 16"
    by (rule real_sqrt_less_iff)
  moreover have "sqrt 16 = (4::real)"
    using real_sqrt_abs [of 4] by simp
  ultimately show ?thesis
    by (simp add: hypot_def DRAG_THRESHOLD_PX_def)
qed

lemmas drag_eval = example_props_def pointer_at_def hasImageSize_def nullish_def
  below_threshold_def hypot_below_threshold percent_at_def toPercent_def clampPercent_def
  Let_def power2_eq_square

text \<open>
  C4. A drag session in edit mode on a marker with an identifier, whose events all carry
  the pointer of the pointer-down. If every pointer-move stays less than 4 pixels away
  from the pointer-down, the session emits nothing: no position update and no commit.
  Otherwise, from the first pointer-move at 4 pixels or more on, every pointer-move emits
  one position update with the clamped percentage position of that move, none is emitted
  before it, and the end of the session emits exactly one commit, which carries the
  position of the last pointer-move. In both cases the session leaves the cell cleared.
\<close>

theorem drag_session_threshold_and_commit:
  assumes "p_mode p = Edit" "hasImageSize (p_imageSize p)" "\<not> nullish pinId"
    and "\<forall>m\<in>set ms. pointerId (snd m) = pointerId down \<and> hasImageSize (p_imageSize (fst m))"
    and "pointerId up = pointerId down"
  shows "((\<forall>m\<in>set ms. below_threshold down m) \<longrightarrow>
            drag_session p down pinId ms up r = Inr (cleared r, [])) \<and>
         (\<forall>pre m post.
            ms = pre @ m # post \<and> (\<forall>m'\<in>set pre. below_threshold down m') \<and>
            \<not> below_threshold down m \<longrightarrow>
            drag_session p down pinId ms up r =
              Inr (cleared r,
                   map (\<lambda>m. MovePin pinId (percent_at m)) (m # post) @
                   [CommitMovePin pinId (percent_at (last (m # post)))]))"
proof (intro conjI impI allI)
  assume "\<forall>m\<in>set ms. below_threshold down m"
  then have "dropWhile (below_threshold down) ms = []"
    by simp
  then show "drag_session p down pinId ms up r = Inr (cleared r, [])"
    using drag_session_calls [OF assms, of r] by simp
next
  fix pre m post
  assume a: "ms = pre @ m # post \<and> (\<forall>m'\<in>set pre. below_threshold down m') \<and>
            \<not> below_threshold down m"
  then have "dropWhile (below_threshold down) ms = m # post"
    by (simp add: dropWhile_append2)
  then show "drag_session p down pinId ms up r =
              Inr (cleared r,
                   map (\<lambda>m. MovePin pinId (percent_at m)) (m # post) @
                   [CommitMovePin pinId (percent_at (last (m # post)))])"
    using drag_session_calls [OF assms, of r] by simp
qed

theorem drag_session_threshold_and_commit_witness:
  "drag_session example_props (pointer_at 100 100) (JNum 7)
     [(example_props, pointer_at 102 101)] (pointer_at 102 101) initial_dragRef
     = Inr (cleared initial_dragRef, []) \<and>
   drag_session example_props (pointer_at 100 100) (JNum 7)
     [(example_props, pointer_at 102 101), (example_props, pointer_at 132 100),
      (example_props, pointer_at 101 90)] (pointer_at 101 90) initial_dragRef
     = Inr (cleared initial_dragRef,
            [MovePin (JNum 7) \<lparr> xPercent = 33 / 8, yPercent = 50 / 9 \<rparr>,
             MovePin (JNum 7) \<lparr> xPercent = 101 / 32, yPercent = 5 \<rparr>,
             CommitMovePin (JNum 7) \<lparr> xPercent = 101 / 32, yPercent = 5 \<rparr>])"
proof -
  let ?m1 = "(example_props, pointer_at 102 101)"
  let ?m2 = "(example_props, pointer_at 132 100)"
  let ?m3 = "(example_props, pointer_at 101 90)"
  have edit: "p_mode example_props = Edit" "hasImageSize (p_imageSize example_props)"
    and pin: "\<not> nullish (JNum 7)"
    by (simp_all add: drag_eval)
  have ev1: "\<forall>m\<in>set [?m1]. pointerId (snd m) = pointerId (pointer_at 100 100) \<and>
               hasImageSize (p_imageSize (fst m))"
    and ev3: "\<forall>m\<in>set ([?m1] @ ?m2 # [?m3]).
               pointerId (snd m) = pointerId (pointer_at 100 100) \<and>
               hasImageSize (p_imageSize (fst m))"
    and up1: "pointerId (pointer_at 102 101) = pointerId (pointer_at 100 100)"
    and up3: "pointerId (pointer_at 101 90) = pointerId (pointer_at 100 100)"
    by (simp_all add: drag_eval)
  have near: "\<forall>m\<in>set [?m1]. below_threshold (pointer_at 100 100) m"
    and far: "\<not> below_threshold (pointer_at 100 100) ?m2"
    by (simp_all add: drag_eval)
  have click: "drag_session example_props (pointer_at 100 100) (JNum 7) [?m1]
      (pointer_at 102 101) initial_dragRef = Inr (cleared initial_dragRef, [])"
    using drag_session_threshold_and_commit [OF edit pin ev1 up1, of initial_dragRef] near
    by blast
  have drag: "drag_session example_props (pointer_at 100 100) (JNum 7)
      ([?m1] @ ?m2 # [?m3]) (pointer_at 101 90) initial_dragRef
      = Inr (cleared initial_dragRef,
             map (\<lambda>m. MovePin (JNum 7) (percent_at m)) (?m2 # [?m3]) @
             [CommitMovePin (JNum 7) (percent_at (last (?m2 # [?m3])))])"
    using drag_session_threshold_and_commit [OF edit pin ev3 up3, of initial_dragRef] near far
    by blast
  show ?thesis
    using click drag by (simp add: drag_eval)
qed

section \<open>The viewport statements at the concrete viewport\<close>

lemmas viewport_eval = handleImageLoad_def example_env_def example_image_def
  calculateMinScale_def centerImage_def getContainerSize_def initial_zoomable_def Let_def
  handleMouseDown_def handleMouseMove_def smoothZoomStep_def handleWheel_def
  computeZoomedPos_def getBoundsFor_def clamp_def offset_in_bounds_def covers_container_def
  in_zoom_range_def zoomIntensity_def

theorem offset_within_bounds_after_pan_and_zoom_witness:
  "imgRef example_env = Some example_image \<and>
   isDragging (handleMouseDown \<lparr> clientX = 100, clientY = 100 \<rparr>
                 (handleImageLoad example_env initial_zoomable)) \<and>
   offset_in_bounds example_env example_image
     (handleMouseMove example_env \<lparr> clientX = 500, clientY = 50 \<rparr>
        (handleMouseDown \<lparr> clientX = 100, clientY = 100 \<rparr>
           (handleImageLoad example_env initial_zoomable))) \<and>
   pos (handleMouseMove example_env \<lparr> clientX = 500, clientY = 50 \<rparr>
        (handleMouseDown \<lparr> clientX = 100, clientY = 100 \<rparr>
           (handleImageLoad example_env initial_zoomable))) = \<lparr> px = 0, py = 0 \<rparr> \<and>
   covers_container example_env example_image
     (handleMouseMove example_env \<lparr> clientX = 500, clientY = 50 \<rparr>
        (handleMouseDown \<lparr> clientX = 100, clientY = 100 \<rparr>
           (handleImageLoad example_env initial_zoomable))) \<and>
   offset_in_bounds example_env example_image
     (smoothZoomStep example_env
        (handleMouseDown \<lparr> clientX = 100, clientY = 100 \<rparr>
           (handleImageLoad example_env initial_zoomable))) \<and>
   covers_container example_env example_image
     (smoothZoomStep example_env
        (handleMouseDown \<lparr> clientX = 100, clientY = 100 \<rparr>
           (handleImageLoad example_env initial_zoomable))) \<and>
   rect_width (boundingRect example_image) \<noteq> 0 \<and>
   rect_height (boundingRect example_image) \<noteq> 0 \<and>
   offset_in_bounds example_env example_image
     ((smoothZoomStep example_env ^^ Suc 0)
        (handleWheel example_env \<lparr> clientX = 400, clientY = 300, deltaY = - 100 \<rparr>
           (handleMouseDown \<lparr> clientX = 100, clientY = 100 \<rparr>
              (handleImageLoad example_env initial_zoomable))))"
  using offset_within_bounds_after_pan_and_zoom
    [of example_env example_image
        "handleMouseDown \<lparr> clientX = 100, clientY = 100 \<rparr>
           (handleImageLoad example_env initial_zoomable)"
        "\<lparr> clientX = 500, clientY = 50 \<rparr>" 0
        "\<lparr> clientX = 400, clientY = 300, deltaY = - 100 \<rparr>"]
  by (simp add: viewport_eval)

theorem zoom_scale_within_range_witness:
  "imgRef example_env = Some example_image \<and>
   0 \<le> minScale (handleImageLoad example_env initial_zoomable) \<and>
   minScale (handleImageLoad example_env initial_zoomable) = 2 / 3 \<and>
   targetScale (handleWheel example_env \<lparr> clientX = 400, clientY = 300, deltaY = -100000 \<rparr>
      (handleImageLoad example_env initial_zoomable)) = 10 / 3 \<and>
   in_zoom_range (minScale (handleImageLoad example_env initial_zoomable))
     (targetScale (handleWheel example_env \<lparr> clientX = 400, clientY = 300, deltaY = -100000 \<rparr>
      (handleImageLoad example_env initial_zoomable))) \<and>
   in_zoom_range (minScale (handleImageLoad example_env initial_zoomable))
     (scale ((smoothZoomStep example_env ^^ Suc 0)
        (handleWheel example_env \<lparr> clientX = 400, clientY = 300, deltaY = -100000 \<rparr>
          (handleImageLoad example_env initial_zoomable))))"
  using zoom_scale_within_range
    [of example_env example_image "handleImageLoad example_env initial_zoomable"
        "\<lparr> clientX = 400, clientY = 300, deltaY = -100000 \<rparr>" 0]
  by (simp add: viewport_eval)

section \<open>Stored coordinates stay in range\<close>

lemma toPercent_in_range: "percent_in_range (toPercent tr sz cx cy)"
  by (simp add: toPercent_def Let_def percent_in_range_def clampPercent_range)

lemma moveDrag_in_range:
  assumes "moveDrag p ev r = Inr (r', cs)" "ref_in_range r"
  shows "ref_in_range r' \<and> (\<forall>c\<in>set cs. percent_in_range (call_percent c))"
  using assms
  by (auto simp: moveDrag_def Let_def ref_in_range_def toPercent_in_range
      split: if_splits option.splits)

lemma moveDrags_in_range:
  assumes "moveDrags ms r = Inr (r', cs)" "ref_in_range r"
  shows "ref_in_range r' \<and> (\<forall>c\<in>set cs. percent_in_range (call_percent c))"
  using assms
proof (induction ms arbitrary: r r' cs)
  case Nil
  then show ?case by simp
next
  case (Cons m ms)
  from Cons.prems(1) obtain r1 cs1 r2 cs2 where
    s: "moveDrag (fst m) (snd m) r = Inr (r1, cs1)" and
    t: "moveDrags ms r1 = Inr (r2, cs2)" and e: "r' = r2" "cs = cs1 @ cs2"
    by (auto split: sum.splits prod.splits)
  from moveDrag_in_range [OF s Cons.prems(2)] have 1: "ref_in_range r1"
    and 2: "\<forall>c\<in>set cs1. percent_in_range (call_percent c)" by simp_all
  from Cons.IH [OF t 1] show ?case
    using 2 e by auto
qed

lemma startDrag_in_range: "ref_in_range r \<Longrightarrow> ref_in_range (startDrag p ev pinId r)"
  by (simp add: startDrag_def ref_in_range_def)

lemma endDrag_in_range:
  "ref_in_range r \<Longrightarrow> \<forall>c\<in>set (snd (endDrag ev r)). percent_in_range (call_percent c)"
  by (auto simp: endDrag_def ref_in_range_def split: option.splits)

lemma drag_session_in_range:
  assumes "drag_session p down pinId ms up r = Inr (r', cs)" "ref_in_range r"
  shows "\<forall>c\<in>set cs. percent_in_range (call_percent c)"
proof -
  from assms(1) obtain r1 cs1 where
    m: "moveDrags ms (startDrag p down pinId r) = Inr (r1, cs1)"
    and e: "cs = cs1 @ snd (endDrag up r1)"
    by (auto simp: drag_session_def split: sum.splits prod.splits)
  have "ref_in_range (startDrag p down pinId r)"
    using assms(2) by (rule startDrag_in_range)
  from moveDrags_in_range [OF m this] endDrag_in_range [of r1 up] show ?thesis
    using e by auto
qed

lemma initial_dragRef_consistent: "ref_consistent initial_dragRef"
  by (simp add: ref_consistent_def initial_dragRef_def nullish_def)

lemma startDrag_consistent: "ref_consistent r \<Longrightarrow> ref_consistent (startDrag p ev pinId r)"
  by (simp add: startDrag_def ref_consistent_def)

lemma endDrag_consistent: "ref_consistent r \<Longrightarrow> ref_consistent (fst (endDrag ev r))"
  by (auto simp: endDrag_def ref_consistent_def nullish_def)

lemma moveDrag_returns:
  assumes "ref_consistent r"
  shows "\<exists>r' cs. moveDrag p ev r = Inr (r', cs) \<and> ref_consistent r'"
  using assms by (auto simp: moveDrag_def ref_consistent_def Let_def)

lemma moveDrags_returns:
  assumes "ref_consistent r"
  shows "\<exists>r' cs. moveDrags ms r = Inr (r', cs) \<and> ref_consistent r'"
  using assms
proof (induction ms arbitrary: r)
  case Nil
  then show ?case by simp
next
  case (Cons m ms)
  from moveDrag_returns [OF Cons.prems, of "fst m" "snd m"] obtain r1 cs1 where
    s: "moveDrag (fst m) (snd m) r = Inr (r1, cs1)" and c: "ref_consistent r1"
    by blast
  from Cons.IH [OF c] obtain r2 cs2 where
    t: "moveDrags ms r1 = Inr (r2, cs2)" and d: "ref_consistent r2"
    by blast
  show ?case
    using s t d by simp
qed

lemma drag_session_returns:
  assumes "ref_consistent r"
  shows "\<exists>r' cs. drag_session p down pinId ms up r = Inr (r', cs) \<and> ref_consistent r'"
proof -
  have "ref_consistent (startDrag p down pinId r)"
    using assms by (rule startDrag_consistent)
  from moveDrags_returns [OF this, of ms] obtain r1 cs1 where
    m: "moveDrags ms (startDrag p down pinId r) = Inr (r1, cs1)" and c: "ref_consistent r1"
    by blast
  show ?thesis
    using m endDrag_consistent [OF c, of up] by (simp add: drag_session_def)
qed

lemma addPin_payload_in_range:
  assumes "addPin_payload st cx cy = Some payload"
  shows "\<exists>x y. payload ''xPercent'' = Some (JNum x) \<and> payload ''yPercent'' = Some (JNum y) \<and>
               percent_in_range \<lparr> xPercent = x, yPercent = y \<rparr>"
  using assms
  by (auto simp: addPin_payload_def Let_def NEW_PIN_DEFAULTS_def percent_in_range_def
      clampPercent_range map_add_def split: if_splits)

lemma handleMovePin_stores:
  assumes "i < length (pins st)" "get (pins st ! i) ''id'' = pinId"
  shows "get (pins (handleMovePin pinId q st) ! i) ''xPercent'' = JNum (xPercent q) \<and>
         get (pins (handleMovePin pinId q st) ! i) ''yPercent'' = JNum (yPercent q)"
  using assms by (simp add: handleMovePin_def updatePinLocal_def percent_patch_def get_def map_add_def)

text \<open>
  C6. The coordinates the client computes are clamped into [0,100], for every screen
  point, inside or outside the image: the payload of a pin created from a background click
  under the current transform, the result of \<open>toPercent\<close>, every position update and
  commit a drag session emits (a session always runs to its end), and the coordinates a
  position update stores in the local pin. The divisors (natural size times scale) are
  assumed not to be zero.
\<close>

theorem stored_percent_always_clamped:
  "(scale (transformRef st) \<noteq> 0 \<and> addPin_payload st cx cy = Some payload \<longrightarrow>
      (\<exists>x y. payload ''xPercent'' = Some (JNum x) \<and> payload ''yPercent'' = Some (JNum y) \<and>
             percent_in_range \<lparr> xPercent = x, yPercent = y \<rparr>)) \<and>
   (scale tr \<noteq> 0 \<and> width sz \<noteq> 0 \<and> height sz \<noteq> 0 \<longrightarrow>
      percent_in_range (toPercent tr sz cx cy)) \<and>
   ((\<forall>m\<in>set ms. scale (p_transform (fst m)) \<noteq> 0) \<and> ref_in_range r \<and>
    ref_consistent r \<longrightarrow>
      (\<exists>r' cs. drag_session p down pinId ms up r = Inr (r', cs) \<and>
         (\<forall>c\<in>set cs. percent_in_range (call_percent c)))) \<and>
   (percent_in_range q \<longrightarrow>
      (\<forall>i < length (pins st). get (pins st ! i) ''id'' = pinId \<longrightarrow>
         get (pins (handleMovePin pinId q st) ! i) ''xPercent'' = JNum (xPercent q) \<and>
         get (pins (handleMovePin pinId q st) ! i) ''yPercent'' = JNum (yPercent q)))"
proof -
  have a: "addPin_payload st cx cy = Some payload \<longrightarrow>
      (\<exists>x y. payload ''xPercent'' = Some (JNum x) \<and> payload ''yPercent'' = Some (JNum y) \<and>
             percent_in_range \<lparr> xPercent = x, yPercent = y \<rparr>)"
    using addPin_payload_in_range [of st cx cy payload] by blast
  have b: "percent_in_range (toPercent tr sz cx cy)"
    by (rule toPercent_in_range)
  have c: "ref_in_range r \<and> ref_consistent r \<longrightarrow>
      (\<exists>r' cs. drag_session p down pinId ms up r = Inr (r', cs) \<and>
         (\<forall>c\<in>set cs. percent_in_range (call_percent c)))"
    using drag_session_returns [of r p down pinId ms up]
      drag_session_in_range [of p down pinId ms up r] by blast
  have d: "\<forall>i < length (pins st). get (pins st ! i) ''id'' = pinId \<longrightarrow>
         get (pins (handleMovePin pinId q st) ! i) ''xPercent'' = JNum (xPercent q) \<and>
         get (pins (handleMovePin pinId q st) ! i) ''yPercent'' = JNum (yPercent q)"
    using handleMovePin_stores [of _ st pinId q] by blast
  show ?thesis
    using a b c d by blast
qed

theorem stored_percent_always_clamped_witness:
  "scale (transformRef example_app) \<noteq> 0 \<and>
   addPin_payload example_app (- 50) 5000 =
     Some ([''xPercent'' \<mapsto> JNum 0, ''yPercent'' \<mapsto> JNum 100] ++ NEW_PIN_DEFAULTS) \<and>
   (\<exists>x y. ([''xPercent'' \<mapsto> JNum 0, ''yPercent'' \<mapsto> JNum 100] ++ NEW_PIN_DEFAULTS) ''xPercent''
             = Some (JNum x) \<and>
          ([''xPercent'' \<mapsto> JNum 0, ''yPercent'' \<mapsto> JNum 100] ++ NEW_PIN_DEFAULTS) ''yPercent''
             = Some (JNum y) \<and>
          percent_in_range \<lparr> xPercent = x, yPercent = y \<rparr>) \<and>
   percent_in_range (toPercent (transformRef example_app) (imageSizeRef example_app) (- 50) 5000) \<and>
   toPercent (transformRef example_app) (imageSizeRef example_app) (- 50) 5000
     = \<lparr> xPercent = 0, yPercent = 100 \<rparr> \<and>
   ref_in_range initial_dragRef \<and> ref_consistent initial_dragRef \<and>
   drag_session example_props (pointer_at 100 100) (JNum 7)
     [(example_props, pointer_at (- 20) 100), (example_props, pointer_at 101 4000)]
     (pointer_at 101 4000) initial_dragRef
     = Inr (cleared initial_dragRef,
            [MovePin (JNum 7) \<lparr> xPercent = 0, yPercent = 50 / 9 \<rparr>,
             MovePin (JNum 7) \<lparr> xPercent = 101 / 32, yPercent = 100 \<rparr>,
             CommitMovePin (JNum 7) \<lparr> xPercent = 101 / 32, yPercent = 100 \<rparr>]) \<and>
   list_all (\<lambda>c. percent_in_range (call_percent c))
            [MovePin (JNum 7) \<lparr> xPercent = 0, yPercent = 50 / 9 \<rparr>,
             MovePin (JNum 7) \<lparr> xPercent = 101 / 32, yPercent = 100 \<rparr>,
             CommitMovePin (JNum 7) \<lparr> xPercent = 101 / 32, yPercent = 100 \<rparr>] \<and>
   get (pins (handleMovePin (JNum 7) \<lparr> xPercent = 0, yPercent = 50 / 9 \<rparr> example_app) ! 0)
     ''xPercent'' = JNum 0 \<and>
   get (pins (handleMovePin (JNum 7) \<lparr> xPercent = 0, yPercent = 50 / 9 \<rparr> example_app) ! 0)
     ''yPercent'' = JNum (50 / 9)"
proof -
  let ?payload = "[''xPercent'' \<mapsto> JNum 0, ''yPercent'' \<mapsto> JNum 100] ++ NEW_PIN_DEFAULTS"
  let ?ms = "[(example_props, pointer_at (- 20) 100), (example_props, pointer_at 101 4000)]"
  let ?cs = "[MovePin (JNum 7) \<lparr> xPercent = 0, yPercent = 50 / 9 \<rparr>,
             MovePin (JNum 7) \<lparr> xPercent = 101 / 32, yPercent = 100 \<rparr>,
             CommitMovePin (JNum 7) \<lparr> xPercent = 101 / 32, yPercent = 100 \<rparr>]"
  let ?q = "\<lparr> xPercent = 0, yPercent = 50 / 9 \<rparr>"
  have sc: "scale (transformRef example_app) \<noteq> 0"
    and sz: "width (imageSizeRef example_app) \<noteq> 0" "height (imageSizeRef example_app) \<noteq> 0"
    by (simp_all add: example_app_def)
  have pay: "addPin_payload example_app (- 50) 5000 = Some ?payload"
    by (simp add: addPin_payload_def example_app_def clampPercent_def Let_def)
  have tp: "toPercent (transformRef example_app) (imageSizeRef example_app) (- 50) 5000
     = \<lparr> xPercent = 0, yPercent = 100 \<rparr>"
    by (simp add: toPercent_def example_app_def clampPercent_def Let_def)
  have ms: "\<forall>m\<in>set ?ms. scale (p_transform (fst m)) \<noteq> 0"
    by (simp add: example_props_def)
  have ok: "ref_in_range initial_dragRef"
    by (simp add: ref_in_range_def initial_dragRef_def)
  have ses: "drag_session example_props (pointer_at 100 100) (JNum 7) ?ms
     (pointer_at 101 4000) initial_dragRef = Inr (cleared initial_dragRef, ?cs)"
    by (simp add: drag_session_def startDrag_def moveDrag_def endDrag_def cleared_def
        initial_dragRef_def drag_eval)
  have q: "percent_in_range ?q"
    by (simp add: percent_in_range_def)
  have i: "0 < length (pins example_app)" "get (pins example_app ! 0) ''id'' = JNum 7"
    by (simp_all add: example_app_def example_pin_def get_def)
  have con: "ref_consistent initial_dragRef"
    by (rule initial_dragRef_consistent)
  note t = stored_percent_always_clamped
    [of example_app "- 50" 5000 ?payload "transformRef example_app" "imageSizeRef example_app"
        ?ms initial_dragRef example_props "pointer_at 100 100" "JNum 7" "pointer_at 101 4000"
        ?q]
  from t sc pay have 1: "\<exists>x y. ?payload ''xPercent'' = Some (JNum x) \<and>
      ?payload ''yPercent'' = Some (JNum y) \<and> percent_in_range \<lparr> xPercent = x, yPercent = y \<rparr>"
    by blast
  from t sc sz have 2: "percent_in_range
      (toPercent (transformRef example_app) (imageSizeRef example_app) (- 50) 5000)"
    by blast
  from t ms ok con have "\<exists>r' cs. drag_session example_props (pointer_at 100 100) (JNum 7) ?ms
      (pointer_at 101 4000) initial_dragRef = Inr (r', cs) \<and>
      (\<forall>c\<in>set cs. percent_in_range (call_percent c))"
    by blast
  with ses have "\<forall>c\<in>set ?cs. percent_in_range (call_percent c)"
    by auto
  then have 3: "list_all (\<lambda>c. percent_in_range (call_percent c)) ?cs"
    by (simp only: list_all_iff)
  from t q i have 4: "get (pins (handleMovePin (JNum 7) ?q example_app) ! 0) ''xPercent''
        = JNum (xPercent ?q) \<and>
      get (pins (handleMovePin (JNum 7) ?q example_app) ! 0) ''yPercent'' = JNum (yPercent ?q)"
    by blast
  show ?thesis
    using sc pay tp ok con ses 1 2 3 4 by simp
qed

section \<open>The local pin list: deleting and updating\<close>

lemma example_pin_id: "get (example_pin n) ''id'' = JNum n"
  by (simp add: example_pin_def get_def)

text \<open>
  C8. When \<open>deletePin\<close> succeeds, the pins with that id are removed from the local list
  and all the others stay, in order; the details panel is closed and the selection
  cleared (whatever was selected, so in particular when the deleted pin was selected or
  its panel open). When \<open>deletePin\<close> fails, the state is as it was: pin list, selection
  and panel.
\<close>

theorem delete_pin_local_state:
  "pins (handleDeletePin (Resolved u) pinId st) = filter (\<lambda>p. get p ''id'' \<noteq> pinId) (pins st) \<and>
   (\<forall>p\<in>set (pins (handleDeletePin (Resolved u) pinId st)). get p ''id'' \<noteq> pinId) \<and>
   (\<forall>p\<in>set (pins st). get p ''id'' \<noteq> pinId \<longrightarrow>
      p \<in> set (pins (handleDeletePin (Resolved u) pinId st))) \<and>
   \<not> isDetailsOpen (handleDeletePin (Resolved u) pinId st) \<and>
   selectedPinId (handleDeletePin (Resolved u) pinId st) = JNull \<and>
   handleDeletePin Rejected pinId st = st"
  by (simp add: handleDeletePin_def)

theorem delete_pin_local_state_witness:
  "pins (handleDeletePin (Resolved ()) (JNum 7) example_app) = [example_pin 8] \<and>
   list_all (\<lambda>p. get p ''id'' \<noteq> JNum 7)
     (pins (handleDeletePin (Resolved ()) (JNum 7) example_app)) \<and>
   example_pin 8 \<in> set (pins example_app) \<and>
   example_pin 8 \<in> set (pins (handleDeletePin (Resolved ()) (JNum 7) example_app)) \<and>
   selectedPinId example_app = JNum 7 \<and> isDetailsOpen example_app \<and>
   \<not> isDetailsOpen (handleDeletePin (Resolved ()) (JNum 7) example_app) \<and>
   selectedPinId (handleDeletePin (Resolved ()) (JNum 7) example_app) = JNull \<and>
   handleDeletePin Rejected (JNum 7) example_app = example_app"
proof -
  note t = delete_pin_local_state [of "()" "JNum 7" example_app]
  have f: "filter (\<lambda>p. get p ''id'' \<noteq> JNum 7) (pins example_app) = [example_pin 8]"
    by (simp add: example_app_def example_pin_id)
  have m: "example_pin 8 \<in> set (pins example_app)" "get (example_pin 8) ''id'' \<noteq> JNum 7"
    by (simp_all add: example_app_def example_pin_id)
  from t have "\<forall>p\<in>set (pins (handleDeletePin (Resolved ()) (JNum 7) example_app)).
      get p ''id'' \<noteq> JNum 7" by blast
  then have a: "list_all (\<lambda>p. get p ''id'' \<noteq> JNum 7)
      (pins (handleDeletePin (Resolved ()) (JNum 7) example_app))"
    by (simp only: list_all_iff)
  from t m have b:
    "example_pin 8 \<in> set (pins (handleDeletePin (Resolved ()) (JNum 7) example_app))"
    by blast
  from t f have c: "pins (handleDeletePin (Resolved ()) (JNum 7) example_app) = [example_pin 8]"
    by simp
  have d: "selectedPinId example_app = JNum 7 \<and> isDetailsOpen example_app"
    by (simp add: example_app_def)
  from t have e: "\<not> isDetailsOpen (handleDeletePin (Resolved ()) (JNum 7) example_app) \<and>
   selectedPinId (handleDeletePin (Resolved ()) (JNum 7) example_app) = JNull \<and>
   handleDeletePin Rejected (JNum 7) example_app = example_app"
    by blast
  show ?thesis
    using a b c d e m by blast
qed

lemma updatePinLocal_frame:
  "only_pin_changed pinId (pins st) (pins (updatePinLocal pinId patch st))"
  by (simp add: only_pin_changed_def updatePinLocal_def)

lemma only_pin_changed_refl: "only_pin_changed pinId ps ps"
  by (simp add: only_pin_changed_def)

lemma updatePinLocal_single:
  assumes "distinct (map (\<lambda>p. get p ''id'') (pins st))"
    and "i < length (pins st)" "j < length (pins st)"
    and "pins (updatePinLocal pinId patch st) ! i \<noteq> pins st ! i"
    and "pins (updatePinLocal pinId patch st) ! j \<noteq> pins st ! j"
  shows "i = j"
proof -
  have "get (pins st ! i) ''id'' = pinId" "get (pins st ! j) ''id'' = pinId"
    using assms(2-5) by (auto simp: updatePinLocal_def split: if_splits)
  then have "map (\<lambda>p. get p ''id'') (pins st) ! i = map (\<lambda>p. get p ''id'') (pins st) ! j"
    using assms(2,3) by simp
  moreover have "i < length (map (\<lambda>p. get p ''id'') (pins st))"
    and "j < length (map (\<lambda>p. get p ''id'') (pins st))"
    using assms(2,3) by simp_all
  ultimately show ?thesis
    using assms(1) nth_eq_iff_index_eq by blast
qed

text \<open>
  C10. A local update through \<open>updatePinLocal\<close> keeps the length of the pin list and
  leaves the pin at every position whose id differs from \<open>pinId\<close> as it was; a pin whose
  id is \<open>pinId\<close> becomes the pin overlaid with the patch, at the same position. When the
  ids in the list are distinct, at most one position changes. The same frame holds for
  the handlers that go through it: the live drag preview, and the reconciliation after
  mark-watered, after a committed move and after a patch, whatever the request's outcome.
\<close>

theorem updatePinLocal_changes_only_that_pin:
  "only_pin_changed pinId (pins st) (pins (updatePinLocal pinId patch st)) \<and>
   (\<forall>i < length (pins st). get (pins st ! i) ''id'' = pinId \<longrightarrow>
      pins (updatePinLocal pinId patch st) ! i = pins st ! i ++ patch) \<and>
   (distinct (map (\<lambda>p. get p ''id'') (pins st)) \<longrightarrow>
      (\<forall>i j. i < length (pins st) \<and> j < length (pins st) \<and>
             pins (updatePinLocal pinId patch st) ! i \<noteq> pins st ! i \<and>
             pins (updatePinLocal pinId patch st) ! j \<noteq> pins st ! j \<longrightarrow> i = j)) \<and>
   handleMovePin pinId q st = updatePinLocal pinId (percent_patch q) st \<and>
   only_pin_changed pinId (pins st) (pins (handleMovePin pinId q st)) \<and>
   only_pin_changed pinId (pins st) (pins (handleMarkWatered res pinId st)) \<and>
   only_pin_changed pinId (pins st) (pins (handleCommitMovePin res pinId q st)) \<and>
   only_pin_changed pinId (pins st) (pins (fst (handleUpdatePin res pinId patch st)))"
proof -
  have a: "only_pin_changed pinId (pins st) (pins (updatePinLocal pinId patch st))"
    by (rule updatePinLocal_frame)
  have b: "\<forall>i < length (pins st). get (pins st ! i) ''id'' = pinId \<longrightarrow>
      pins (updatePinLocal pinId patch st) ! i = pins st ! i ++ patch"
    by (simp add: updatePinLocal_def)
  have c: "distinct (map (\<lambda>p. get p ''id'') (pins st)) \<longrightarrow>
      (\<forall>i j. i < length (pins st) \<and> j < length (pins st) \<and>
             pins (updatePinLocal pinId patch st) ! i \<noteq> pins st ! i \<and>
             pins (updatePinLocal pinId patch st) ! j \<noteq> pins st ! j \<longrightarrow> i = j)"
    using updatePinLocal_single [of st _ _ pinId patch] by blast
  have d: "handleMovePin pinId q st = updatePinLocal pinId (percent_patch q) st"
    by (simp add: handleMovePin_def)
  have e: "only_pin_changed pinId (pins st) (pins (handleMovePin pinId q st))"
    by (simp add: handleMovePin_def updatePinLocal_frame)
  have f: "only_pin_changed pinId (pins st) (pins (handleMarkWatered res pinId st))"
    by (cases res)
       (simp_all add: handleMarkWatered_def updatePinLocal_frame only_pin_changed_refl)
  have g: "only_pin_changed pinId (pins st) (pins (handleCommitMovePin res pinId q st))"
    by (cases res)
       (simp_all add: handleCommitMovePin_def updatePinLocal_frame only_pin_changed_refl)
  have h: "only_pin_changed pinId (pins st) (pins (fst (handleUpdatePin res pinId patch st)))"
    by (cases res)
       (simp_all add: handleUpdatePin_def updatePinLocal_frame only_pin_changed_refl)
  show ?thesis
    using a b c d e f g h by blast
qed

section \<open>The last-watered label\<close>

lemma whole_days:
  "0 \<le> d \<Longrightarrow> d < MS_PER_DAY \<Longrightarrow> d div MS_PER_DAY = 0"
  "MS_PER_DAY \<le> d \<Longrightarrow> d < 2 * MS_PER_DAY \<Longrightarrow> d div MS_PER_DAY = 1"
  "5 * MS_PER_DAY \<le> d \<Longrightarrow> d < 6 * MS_PER_DAY \<Longrightarrow> d div MS_PER_DAY = 5"
  unfolding MS_PER_DAY_def by simp_all

lemma string_of_nat_5: "string_of_nat 5 = ''5''"
  by (simp add: string_of_nat.simps [of 5])

text \<open>
  C7. For every current time \<open>now\<close>: no timestamp gives \<open>Probably\<close>; a timestamp less
  than one day before \<open>now\<close> gives \<open>Today\<close>; one that is one whole day before (at least
  one day, less than two) gives \<open>1 day ago\<close>; one that is five whole days before gives
  \<open>5 days ago\<close>; and a timestamp at or after \<open>now\<close> gives \<open>Today\<close>.
\<close>

theorem formatLastWatered_labels:
  "formatLastWatered parseDate now None = ''Probably'' \<and>
   (s \<noteq> [] \<and> parseDate s = Some t \<and> 0 \<le> now - t \<and> now - t < MS_PER_DAY \<longrightarrow>
      formatLastWatered parseDate now (Some s) = ''Today'') \<and>
   (s \<noteq> [] \<and> parseDate s = Some t \<and> MS_PER_DAY \<le> now - t \<and> now - t < 2 * MS_PER_DAY \<longrightarrow>
      formatLastWatered parseDate now (Some s) = ''1 day ago'') \<and>
   (s \<noteq> [] \<and> parseDate s = Some t \<and> 5 * MS_PER_DAY \<le> now - t \<and> now - t < 6 * MS_PER_DAY \<longrightarrow>
      formatLastWatered parseDate now (Some s) = ''5 days ago'') \<and>
   (s \<noteq> [] \<and> parseDate s = Some t \<and> now \<le> t \<longrightarrow>
      formatLastWatered parseDate now (Some s) = ''Today'')"
proof (intro conjI impI)
  show "formatLastWatered parseDate now None = ''Probably''"
    by (simp add: formatLastWatered_def)
next
  assume "s \<noteq> [] \<and> parseDate s = Some t \<and> 0 \<le> now - t \<and> now - t < MS_PER_DAY"
  then show "formatLastWatered parseDate now (Some s) = ''Today''"
    by (simp add: formatLastWatered_def Let_def whole_days)
next
  assume a: "s \<noteq> [] \<and> parseDate s = Some t \<and> MS_PER_DAY \<le> now - t \<and>
    now - t < 2 * MS_PER_DAY"
  then have "0 < now - t" by (simp add: MS_PER_DAY_def)
  with a show "formatLastWatered parseDate now (Some s) = ''1 day ago''"
    by (simp add: formatLastWatered_def Let_def whole_days)
next
  assume a: "s \<noteq> [] \<and> parseDate s = Some t \<and> 5 * MS_PER_DAY \<le> now - t \<and>
    now - t < 6 * MS_PER_DAY"
  then have "0 < now - t" by (simp add: MS_PER_DAY_def)
  with a show "formatLastWatered parseDate now (Some s) = ''5 days ago''"
    by (simp add: formatLastWatered_def Let_def whole_days string_of_nat_5)
next
  assume "s \<noteq> [] \<and> parseDate s = Some t \<and> now \<le> t"
  then show "formatLastWatered parseDate now (Some s) = ''Today''"
    by (simp add: formatLastWatered_def Let_def)
qed

text \<open>
  C9. A non-empty string that is not a valid date gives \<open>Probably\<close>, as the empty string
  and a missing value do. Whatever the input, the result is one of the labels
  \<open>Probably\<close>, \<open>Today\<close>, \<open>1 day ago\<close>, or the decimal numeral of a day count of at
  least 2 followed by \<open>days ago\<close>; an invalid date never reaches the label.
\<close>

theorem formatLastWatered_invalid_date:
  "(s \<noteq> [] \<and> parseDate s = None \<longrightarrow> formatLastWatered parseDate now (Some s) = ''Probably'') \<and>
   formatLastWatered parseDate now (Some []) = ''Probably'' \<and>
   formatLastWatered parseDate now None = ''Probably'' \<and>
   (formatLastWatered parseDate now inp = ''Probably'' \<or>
    formatLastWatered parseDate now inp = ''Today'' \<or>
    formatLastWatered parseDate now inp = ''1 day ago'' \<or>
    (\<exists>n\<ge>2. formatLastWatered parseDate now inp = string_of_nat n @ '' days ago''))"
proof -
  have a: "s \<noteq> [] \<and> parseDate s = None \<longrightarrow>
      formatLastWatered parseDate now (Some s) = ''Probably''"
    by (simp add: formatLastWatered_def)
  have b: "formatLastWatered parseDate now (Some []) = ''Probably''"
    and c: "formatLastWatered parseDate now None = ''Probably''"
    by (simp_all add: formatLastWatered_def)
  have d: "formatLastWatered parseDate now inp = ''Probably'' \<or>
    formatLastWatered parseDate now inp = ''Today'' \<or>
    formatLastWatered parseDate now inp = ''1 day ago'' \<or>
    (\<exists>n\<ge>2. formatLastWatered parseDate now inp = string_of_nat n @ '' days ago'')"
  proof (cases inp)
    case None
    then show ?thesis by (simp add: formatLastWatered_def)
  next
    case (Some x)
    show ?thesis
    proof (cases "parseDate x")
      case None
      with Some show ?thesis by (simp add: formatLastWatered_def)
    next
      case (Some lastMs)
      let ?k = "(now - lastMs) div MS_PER_DAY"
      consider "x = []" | "now - lastMs \<le> 0" | "?k \<le> 0" | "?k = 1"
        | "x \<noteq> []" "\<not> now - lastMs \<le> 0" "\<not> ?k \<le> 0" "?k \<noteq> 1"
        by blast
      then show ?thesis
      proof cases
        case 5
        then have "2 \<le> nat ?k" by simp
        moreover have
          "formatLastWatered parseDate now inp = string_of_nat (nat ?k) @ '' days ago''"
          using 5 Some \<open>inp = Some x\<close> by (simp add: formatLastWatered_def Let_def)
        ultimately show ?thesis by blast
      qed (simp_all add: formatLastWatered_def Let_def Some \<open>inp = Some x\<close>)
    qed
  qed
  show ?thesis
    using a b c d by blast
qed

section \<open>The list and label statements at concrete inputs\<close>

theorem updatePinLocal_changes_only_that_pin_witness:
  "distinct (map (\<lambda>p. get p ''id'') (pins example_app)) \<and>
   length (pins (updatePinLocal (JNum 7) [''name'' \<mapsto> JStr ''Tulip''] example_app)) = 2 \<and>
   pins (updatePinLocal (JNum 7) [''name'' \<mapsto> JStr ''Tulip''] example_app) ! 1 = example_pin 8 \<and>
   pins (updatePinLocal (JNum 7) [''name'' \<mapsto> JStr ''Tulip''] example_app) ! 0
     = example_pin 7 ++ [''name'' \<mapsto> JStr ''Tulip''] \<and>
   get (pins (updatePinLocal (JNum 7) [''name'' \<mapsto> JStr ''Tulip''] example_app) ! 0) ''name''
     = JStr ''Tulip'' \<and>
   pins (handleMovePin (JNum 7) \<lparr> xPercent = 0, yPercent = 50 \<rparr> example_app) ! 1
     = example_pin 8 \<and>
   pins (handleMarkWatered (Resolved [''lastWatered'' \<mapsto> JStr ''2026-02-20T10:12:30Z''])
           (JNum 7) example_app) ! 1 = example_pin 8 \<and>
   pins (handleCommitMovePin Rejected (JNum 7) \<lparr> xPercent = 0, yPercent = 50 \<rparr> example_app) ! 1
     = example_pin 8 \<and>
   pins (fst (handleUpdatePin (Resolved [''name'' \<mapsto> JStr ''Tulip'']) (JNum 7)
                [''name'' \<mapsto> JStr ''Tulip''] example_app)) ! 1 = example_pin 8"
proof -
  let ?patch = "[''name'' \<mapsto> JStr ''Tulip'']"
  let ?q = "\<lparr> xPercent = 0, yPercent = 50 \<rparr>"
  have len: "length (pins example_app) = 2"
    and p0: "pins example_app ! 0 = example_pin 7" "get (pins example_app ! 0) ''id'' = JNum 7"
    and p1: "pins example_app ! 1 = example_pin 8" "get (pins example_app ! 1) ''id'' \<noteq> JNum 7"
    and dist: "distinct (map (\<lambda>p. get p ''id'') (pins example_app))"
    by (simp_all add: example_app_def example_pin_id)
  note t1 = updatePinLocal_changes_only_that_pin
      [where pinId = "JNum 7" and st = example_app and patch = ?patch and q = ?q
         and res = "Resolved [''lastWatered'' \<mapsto> JStr ''2026-02-20T10:12:30Z'']",
       unfolded only_pin_changed_def]
  note t2 = updatePinLocal_changes_only_that_pin
      [where pinId = "JNum 7" and st = example_app and patch = ?patch and q = ?q
         and res = Rejected, unfolded only_pin_changed_def]
  note t3 = updatePinLocal_changes_only_that_pin
      [where pinId = "JNum 7" and st = example_app and patch = ?patch and q = ?q
         and res = "Resolved ?patch", unfolded only_pin_changed_def]
  have zero: "0 < length (pins example_app)" and one: "1 < length (pins example_app)"
    using len by simp_all
  have a: "length (pins (updatePinLocal (JNum 7) ?patch example_app)) = 2"
    using t1 len by simp
  have "pins (updatePinLocal (JNum 7) ?patch example_app) ! 1 = pins example_app ! 1"
    using t1 one p1(2) by blast
  then have b: "pins (updatePinLocal (JNum 7) ?patch example_app) ! 1 = example_pin 8"
    using p1(1) by simp
  have "pins (updatePinLocal (JNum 7) ?patch example_app) ! 0 = pins example_app ! 0 ++ ?patch"
    using t1 zero p0(2) by blast
  then have c: "pins (updatePinLocal (JNum 7) ?patch example_app) ! 0 = example_pin 7 ++ ?patch"
    using p0(1) by simp
  have "pins (handleMovePin (JNum 7) ?q example_app) ! 1 = pins example_app ! 1"
    using t1 one p1(2) by blast
  then have d: "pins (handleMovePin (JNum 7) ?q example_app) ! 1 = example_pin 8"
    using p1(1) by simp
  have "pins (handleMarkWatered (Resolved [''lastWatered'' \<mapsto> JStr ''2026-02-20T10:12:30Z''])
           (JNum 7) example_app) ! 1 = pins example_app ! 1"
    using t1 one p1(2) by blast
  then have e: "pins (handleMarkWatered
           (Resolved [''lastWatered'' \<mapsto> JStr ''2026-02-20T10:12:30Z''])
           (JNum 7) example_app) ! 1 = example_pin 8"
    using p1(1) by simp
  have "pins (handleCommitMovePin Rejected (JNum 7) ?q example_app) ! 1 = pins example_app ! 1"
    using t2 one p1(2) by blast
  then have f: "pins (handleCommitMovePin Rejected (JNum 7) ?q example_app) ! 1 = example_pin 8"
    using p1(1) by simp
  have "pins (fst (handleUpdatePin (Resolved ?patch) (JNum 7) ?patch example_app)) ! 1
      = pins example_app ! 1"
    using t3 one p1(2) by blast
  then have g: "pins (fst (handleUpdatePin (Resolved ?patch) (JNum 7) ?patch example_app)) ! 1
      = example_pin 8"
    using p1(1) by simp
  show ?thesis
    using a b c d e f g dist by (simp add: get_def)
qed

theorem formatLastWatered_labels_witness:
  "formatLastWatered example_parseDate 1771582350000 None = ''Probably'' \<and>
   example_parseDate ''2026-02-20T10:12:30Z'' = Some 1771582350000 \<and>
   formatLastWatered example_parseDate (1771582350000 + 3600000)
     (Some ''2026-02-20T10:12:30Z'') = ''Today'' \<and>
   formatLastWatered example_parseDate (1771582350000 + MS_PER_DAY + 5)
     (Some ''2026-02-20T10:12:30Z'') = ''1 day ago'' \<and>
   formatLastWatered example_parseDate (1771582350000 + 6 * MS_PER_DAY - 1)
     (Some ''2026-02-20T10:12:30Z'') = ''5 days ago'' \<and>
   formatLastWatered example_parseDate (1771582350000 - 1000)
     (Some ''2026-02-20T10:12:30Z'') = ''Today''"
  using formatLastWatered_labels
      [of example_parseDate "1771582350000 + 3600000" "''2026-02-20T10:12:30Z''" 1771582350000]
    formatLastWatered_labels
      [of example_parseDate "1771582350000 + MS_PER_DAY + 5" "''2026-02-20T10:12:30Z''"
          1771582350000]
    formatLastWatered_labels
      [of example_parseDate "1771582350000 + 6 * MS_PER_DAY - 1" "''2026-02-20T10:12:30Z''"
          1771582350000]
    formatLastWatered_labels
      [of example_parseDate "1771582350000 - 1000" "''2026-02-20T10:12:30Z''" 1771582350000]
    formatLastWatered_labels
      [of example_parseDate 1771582350000 "''2026-02-20T10:12:30Z''" 1771582350000]
  by (simp add: example_parseDate_def MS_PER_DAY_def)

theorem formatLastWatered_invalid_date_witness:
  "''not a date'' \<noteq> [] \<and> example_parseDate ''not a date'' = None \<and>
   formatLastWatered example_parseDate 1771582350000 (Some ''not a date'') = ''Probably'' \<and>
   formatLastWatered example_parseDate 1771582350000 (Some []) = ''Probably'' \<and>
   formatLastWatered example_parseDate 1771582350000 None = ''Probably''"
  using formatLastWatered_invalid_date
      [of "''not a date''" example_parseDate 1771582350000 None]
  by (simp add: example_parseDate_def)

end
